theory Spec2Isabelle
  imports Main "HOL-Library.Word"
begin

section \<open>The shared buffer of dataman/vis/Buffer.py\<close>

text \<open>
  The module is Python 2 (it uses the print statement, indexes \<open>dict.values()\<close> and divides
  integers with \<open>/\<close>). Python integers are \<open>int\<close>; values read from the ctypes header are
  unsigned and are \<open>nat\<close>. An exception is a value of \<open>error\<close>; a method that mutates the object
  or the shared memory returns the exception, if any, together with the state it leaves behind.

  What the model fixes about the platform and the libraries: \<open>c_ulong\<close> is 8 bytes and
  \<open>c_uint\<close> 4 (LP64), bytes are laid out little-endian, a ctypes array has at most
  \<open>2^63 - 1\<close> elements and is otherwise always allocated, and the arrays given to \<open>put_data\<close>
  are numpy arrays of one or two dimensions whose elements are already values of the
  buffer's element type.
\<close>

type_synonym byte = "8 word"

datatype error =
    BufferError int
  | AttributeError
  | ValueError
  | TypeError
  | KeyError
  | IndexError
  | OverflowError

subsection \<open>Raw memory\<close>

text \<open>
  A ctypes array is a list of bytes. The heap holds every array that has been allocated; a
  reference to an array is its index in the heap, so that two Buffer objects built over one
  array see each other's writes.
\<close>

type_synonym addr = nat
type_synonym heap = "byte list list"

definition deref :: "heap \<Rightarrow> addr \<Rightarrow> byte list" where
  "deref h a = (if a < length h then h ! a else [])"

definition write_bytes :: "byte list \<Rightarrow> nat \<Rightarrow> byte list \<Rightarrow> byte list" where
  "write_bytes mem off bs = take off mem @ bs @ drop (off + length bs) mem"

definition read_bytes :: "byte list \<Rightarrow> nat \<Rightarrow> nat \<Rightarrow> byte list" where
  "read_bytes mem off n = take n (drop off mem)"

text \<open>Native (little-endian) layout of an unsigned value in \<open>k\<close> bytes; a larger value wraps.\<close>

fun le_bytes :: "nat \<Rightarrow> nat \<Rightarrow> byte list" where
  "le_bytes 0 n = []"
| "le_bytes (Suc k) n = of_nat (n mod 256) # le_bytes k (n div 256)"

fun le_nat :: "byte list \<Rightarrow> nat" where
  "le_nat [] = 0"
| "le_nat (b # bs) = unat b + 256 * le_nat bs"

subsection \<open>datatypes: the registry of type codes\<close>

text \<open>
  \<open>types = {0: 'float32', 1: 'int16'}\<close>. \<open>get_code\<close> searches the values with
  \<open>list.index\<close> (ValueError when absent) and returns the key at that position; \<open>get_type\<close>
  subscripts the dictionary (KeyError when absent).
\<close>

definition types :: "(nat \<times> string) list" where
  "types = [(0, ''float32''), (1, ''int16'')]"

fun list_index :: "'a list \<Rightarrow> 'a \<Rightarrow> nat option" where
  "list_index [] x = None"
| "list_index (y # ys) x = (if y = x then Some 0 else map_option Suc (list_index ys x))"

definition get_code :: "string \<Rightarrow> error + nat" where
  "get_code ndtype =
     (case list_index (map snd types) ndtype of
        None \<Rightarrow> Inl ValueError
      | Some idx \<Rightarrow> Inr (map fst types ! idx))"

definition get_type :: "nat \<Rightarrow> error + string" where
  "get_type code = (case map_of types code of None \<Rightarrow> Inl KeyError | Some t \<Rightarrow> Inr t)"

text \<open>
  \<open>np.dtype(name).itemsize\<close> on an LP64 platform, for the fixed-width type names of numpy and
  their usual short forms; \<open>None\<close> stands for the TypeError numpy raises on a name it does not
  know. numpy accepts further spellings (byte-order prefixes, sized strings); nothing proved
  below depends on whether a name outside the registry is in this table.
\<close>

definition np_itemsize :: "string \<Rightarrow> nat option" where
  "np_itemsize name = map_of
     [(''bool'', 1), (''int8'', 1), (''uint8'', 1), (''int16'', 2), (''uint16'', 2),
      (''float16'', 2), (''int32'', 4), (''uint32'', 4), (''float32'', 4), (''int64'', 8),
      (''uint64'', 8), (''float64'', 8), (''complex64'', 8), (''complex128'', 16),
      (''b1'', 1), (''i1'', 1), (''u1'', 1), (''i2'', 2), (''u2'', 2), (''f2'', 2),
      (''i4'', 4), (''u4'', 4), (''f4'', 4), (''i8'', 8), (''u8'', 8), (''f8'', 8),
      (''c8'', 8), (''c16'', 16), (''half'', 2), (''single'', 4), (''double'', 8),
      (''short'', 2), (''int'', 8), (''uint'', 8), (''float'', 8), (''complex'', 16)] name"

subsection \<open>BufferHeader\<close>

text \<open>
  A packed ctypes structure (\<open>_pack_ = 1\<close>) of \<open>c_ulong bufSizeBytes\<close>, \<open>c_uint dataType\<close>,
  \<open>c_ulong nChannels\<close>, \<open>c_ulong nSamples\<close>: 8 + 4 + 8 + 8 = 28 bytes on an LP64 platform.
  \<open>from_buffer\<close> overlays it on the first bytes of an array, so a field is read from and
  written to the array itself. Storing a Python integer in a field keeps its low bits.
\<close>

definition sizeof_BufferHeader :: nat where
  "sizeof_BufferHeader = 28"

definition hdr_bufSizeBytes :: "byte list \<Rightarrow> nat" where
  "hdr_bufSizeBytes mem = le_nat (read_bytes mem 0 8)"

definition hdr_dataType :: "byte list \<Rightarrow> nat" where
  "hdr_dataType mem = le_nat (read_bytes mem 8 4)"

definition hdr_nChannels :: "byte list \<Rightarrow> nat" where
  "hdr_nChannels mem = le_nat (read_bytes mem 12 8)"

definition hdr_nSamples :: "byte list \<Rightarrow> nat" where
  "hdr_nSamples mem = le_nat (read_bytes mem 20 8)"

definition set_field :: "byte list \<Rightarrow> nat \<Rightarrow> nat \<Rightarrow> int \<Rightarrow> byte list" where
  "set_field mem off width v = write_bytes mem off (le_bytes width (nat (v mod 2 ^ (8 * width))))"

definition set_bufSizeBytes :: "byte list \<Rightarrow> int \<Rightarrow> byte list" where
  "set_bufSizeBytes mem v = set_field mem 0 8 v"

definition set_dataType :: "byte list \<Rightarrow> int \<Rightarrow> byte list" where
  "set_dataType mem v = set_field mem 8 4 v"

definition set_nChannels :: "byte list \<Rightarrow> int \<Rightarrow> byte list" where
  "set_nChannels mem v = set_field mem 12 8 v"

definition set_nSamples :: "byte list \<Rightarrow> int \<Rightarrow> byte list" where
  "set_nSamples mem v = set_field mem 20 8 v"

text \<open>
  \<open>Array('c', n)\<close>: a fresh array of \<open>n\<close> zero bytes. The length of a ctypes array is a
  \<open>Py_ssize_t\<close>, so a length above \<open>2^63 - 1\<close> is refused; below that the allocation is
  taken to succeed (memory is not a resource of the model).
\<close>

definition ssize_max :: int where
  "ssize_max = 2 ^ 63 - 1"

definition Array_c :: "heap \<Rightarrow> int \<Rightarrow> error + (addr \<times> heap)" where
  "Array_c h n =
     (if n < 0 then Inl ValueError
      else if n > ssize_max then Inl OverflowError
      else Inr (length h, h @ [replicate (nat n) 0]))"

subsection \<open>numpy arrays\<close>

text \<open>
  A two-dimensional, row-major view into an array of the heap: element \<open>(i, j)\<close> lies at byte
  \<open>offset + i * stride0 + j * itemsize\<close>. A sample is the unsigned value of an element's bit
  pattern; storing it keeps the low \<open>itemsize\<close> bytes.
\<close>

type_synonym sample = nat

record ndarray =
  base :: addr
  dtype :: string
  itemsize :: nat
  offset :: nat
  shape0 :: nat
  shape1 :: nat
  stride0 :: nat
  writeable :: bool

text \<open>The arrays handed to \<open>put_data\<close>: one-dimensional, or two-dimensional of shape
  \<open>(length rows, c)\<close>.\<close>

datatype ndata = Arr1 "sample list" | Arr2 nat "sample list list"

fun len :: "ndata \<Rightarrow> nat" where
  "len (Arr1 xs) = length xs"
| "len (Arr2 c rows) = length rows"

text \<open>The last dimension of the data, \<open>data.shape[-1]\<close>: its number of columns.\<close>

fun width :: "ndata \<Rightarrow> nat" where
  "width (Arr1 xs) = length xs"
| "width (Arr2 c rows) = c"

definition elem_off :: "ndarray \<Rightarrow> nat \<Rightarrow> nat \<Rightarrow> nat" where
  "elem_off v i j = offset v + i * stride0 v + j * itemsize v"

definition ndarray_getitem :: "heap \<Rightarrow> ndarray \<Rightarrow> nat \<Rightarrow> nat \<Rightarrow> sample" where
  "ndarray_getitem h v i j = le_nat (read_bytes (deref h (base v)) (elem_off v i j) (itemsize v))"

definition ndarray_tolist :: "heap \<Rightarrow> ndarray \<Rightarrow> sample list list" where
  "ndarray_tolist h v =
     map (\<lambda>i. map (\<lambda>j. ndarray_getitem h v i j) [0..<shape1 v]) [0..<shape0 v]"

text \<open>\<open>np.frombuffer(raw, dtype, count, offset)\<close> checks that the elements fit the buffer.\<close>

definition frombuffer :: "nat \<Rightarrow> nat \<Rightarrow> nat \<Rightarrow> nat \<Rightarrow> error + nat" where
  "frombuffer buflen isz count off =
     (if off > buflen then Inl ValueError
      else if buflen - off < count * isz then Inl ValueError
      else Inr count)"

text \<open>\<open>.reshape((-1, c))\<close> of \<open>n\<close> elements: the number of rows, when \<open>c\<close> divides \<open>n\<close>.\<close>

definition reshape_rows :: "nat \<Rightarrow> nat \<Rightarrow> error + nat" where
  "reshape_rows n c =
     (if c = 0 then Inl ValueError
      else if n mod c \<noteq> 0 then Inl ValueError
      else Inr (n div c))"

text \<open>A Python slice bound on a dimension of length \<open>n\<close>: negative bounds count from the end,
  and every bound is clipped to \<open>[0, n]\<close>.\<close>

definition clip_index :: "nat \<Rightarrow> int \<Rightarrow> nat" where
  "clip_index n x = (if x < 0 then nat (max (x + int n) 0) else min (nat x) n)"

text \<open>\<open>v[:, start:stop]\<close>: a new view on the same memory. numpy moves the data pointer to
  the first selected column; a selection of no columns keeps the pointer where it was.\<close>

definition getslice :: "ndarray \<Rightarrow> int \<Rightarrow> int \<Rightarrow> ndarray" where
  "getslice v start stop =
     (let s = clip_index (shape1 v) start; e = clip_index (shape1 v) stop
      in if s < e then v\<lparr>offset := offset v + s * itemsize v, shape1 := e - s\<rparr>
         else v\<lparr>shape1 := 0\<rparr>)"

text \<open>Broadcasting a value to a target of shape \<open>(R, W)\<close>: each dimension of the value
  equals the target's or is 1.\<close>

definition stretch :: "'a list \<Rightarrow> nat \<Rightarrow> 'a list" where
  "stretch xs n = (if length xs = n then xs else replicate n (hd xs))"

definition fits :: "nat \<Rightarrow> nat \<Rightarrow> bool" where
  "fits d n = (d = n \<or> d = 1)"

fun broadcast :: "ndata \<Rightarrow> nat \<Rightarrow> nat \<Rightarrow> sample list list option" where
  "broadcast (Arr1 xs) R W =
     (if fits (length xs) W then Some (replicate R (stretch xs W)) else None)"
| "broadcast (Arr2 c rows) R W =
     (if fits c W \<and> fits (length rows) R
      then Some (stretch (map (\<lambda>r. stretch r W) rows) R) else None)"

fun store_row :: "ndarray \<Rightarrow> nat \<Rightarrow> nat \<Rightarrow> sample list \<Rightarrow> byte list \<Rightarrow> byte list" where
  "store_row v i j [] mem = mem"
| "store_row v i j (x # xs) mem =
     store_row v i (Suc j) xs (write_bytes mem (elem_off v i j) (le_bytes (itemsize v) x))"

fun store_rows :: "ndarray \<Rightarrow> nat \<Rightarrow> sample list list \<Rightarrow> byte list \<Rightarrow> byte list" where
  "store_rows v i [] mem = mem"
| "store_rows v i (r # rs) mem = store_rows v (Suc i) rs (store_row v i 0 r mem)"

text \<open>\<open>v[...] = data\<close>: refused on a read-only view and on shapes that do not broadcast,
  before anything is stored.\<close>

definition ndarray_assign :: "ndarray \<Rightarrow> ndata \<Rightarrow> heap \<Rightarrow> error option \<times> heap" where
  "ndarray_assign v data h =
     (if \<not> writeable v then (Some ValueError, h)
      else case broadcast data (shape0 v) (shape1 v) of
        None \<Rightarrow> (Some ValueError, h)
      | Some m \<Rightarrow> (None, h[base v := store_rows v 0 m (deref h (base v))]))"

text \<open>\<open>v[i, j] = x\<close> with Python's indexing (a negative index counts from the end).\<close>

definition norm_index :: "nat \<Rightarrow> int \<Rightarrow> nat option" where
  "norm_index n i =
     (let k = (if i < 0 then i + int n else i)
      in if 0 \<le> k \<and> k < int n then Some (nat k) else None)"

definition ndarray_setitem :: "ndarray \<Rightarrow> int \<Rightarrow> int \<Rightarrow> sample \<Rightarrow> heap \<Rightarrow> error option \<times> heap" where
  "ndarray_setitem v i j x h =
     (if \<not> writeable v then (Some ValueError, h)
      else case (norm_index (shape0 v) i, norm_index (shape1 v) j) of
        (Some i', Some j') \<Rightarrow>
          (None, h[base v := write_bytes (deref h (base v)) (elem_off v i' j')
                                (le_bytes (itemsize v) x)])
      | _ \<Rightarrow> (Some IndexError, h))"

text \<open>\<open>v.setflags(write=w)\<close>. numpy lets the flag be switched on when the memory under the
  view is writable, and a ctypes array always is.\<close>

definition setflags :: "ndarray \<Rightarrow> bool \<Rightarrow> ndarray" where
  "setflags v w = v\<lparr>writeable := w\<rparr>"

text \<open>What a caller can do to a view it holds, and a sequence of such attempts, each made
  whether or not the one before raised; the outcomes are listed in order.\<close>

datatype view_op = SetItem int int sample | Assign ndata | SetFlags bool

fun view_do :: "view_op \<Rightarrow> ndarray \<Rightarrow> heap \<Rightarrow> error option \<times> ndarray \<times> heap" where
  "view_do (SetItem i j x) v h = (case ndarray_setitem v i j x h of (r, h') \<Rightarrow> (r, v, h'))"
| "view_do (Assign d) v h = (case ndarray_assign v d h of (r, h') \<Rightarrow> (r, v, h'))"
| "view_do (SetFlags w) v h = (None, setflags v w, h)"

fun view_run :: "view_op list \<Rightarrow> ndarray \<Rightarrow> heap \<Rightarrow> error option list \<times> ndarray \<times> heap" where
  "view_run [] v h = ([], v, h)"
| "view_run (a # as) v h =
     (case view_do a v h of
        (r, v', h') \<Rightarrow> (case view_run as v' h' of (rs, v'', h'') \<Rightarrow> (r # rs, v'', h'')))"

text \<open>What an attempt gives on a view whose write flag is off.\<close>

fun protected_outcome :: "view_op \<Rightarrow> error option" where
  "protected_outcome (SetFlags w) = None"
| "protected_outcome (SetItem i j x) = Some ValueError"
| "protected_outcome (Assign d) = Some ValueError"

subsection \<open>The Buffer object\<close>

text \<open>
  The private attributes of an instance (\<open>self.__x\<close>, stored as \<open>_Buffer__x\<close>); \<open>None\<close> is an
  attribute that has not been assigned. \<open>__init__\<close> assigns \<open>__initialized\<close> only.
\<close>

record Buffer =
  Buffer_initialized :: bool
  Buffer_raw :: "addr option"
  Buffer_hdr :: "addr option"
  Buffer_buf :: "ndarray option"
  Buffer_nChannels :: "nat option"
  Buffer_nSamples :: "nat option"
  Buffer_bufSize :: "nat option"
  Buffer_nptype :: "string option"

definition Buffer_init :: Buffer where
  "Buffer_init = \<lparr>Buffer_initialized = False, Buffer_raw = None, Buffer_hdr = None,
     Buffer_buf = None, Buffer_nChannels = None, Buffer_nSamples = None,
     Buffer_bufSize = None, Buffer_nptype = None\<rparr>"

text \<open>
  \<open>__getattr__\<close> runs when the ordinary lookup has raised AttributeError; \<open>std\<close> is what
  \<open>object.__getattribute__(self, item)\<close> gives for the same item.
\<close>

definition getattr_hook :: "Buffer \<Rightarrow> error + 'a \<Rightarrow> error + 'a" where
  "getattr_hook self std = (if Buffer_initialized self then std else Inl (BufferError 1))"

text \<open>\<open>self.__x\<close>: the instance attribute, or the hook when it is missing.\<close>

definition attr :: "Buffer \<Rightarrow> (Buffer \<Rightarrow> 'a option) \<Rightarrow> error + 'a" where
  "attr self fld =
     (case fld self of Some v \<Rightarrow> Inr v | None \<Rightarrow> getattr_hook self (Inl AttributeError))"

text \<open>\<open>self.p\<close> for a property \<open>p\<close>: the getter; when it raises AttributeError the hook runs,
  and \<open>object.__getattribute__\<close> there calls the getter again.\<close>

definition property_get :: "Buffer \<Rightarrow> (Buffer \<Rightarrow> error + 'a) \<Rightarrow> error + 'a" where
  "property_get self getter =
     (case getter self of
        Inl AttributeError \<Rightarrow> getattr_hook self (getter self)
      | r \<Rightarrow> r)"

definition is_initialized :: "Buffer \<Rightarrow> error + bool" where
  "is_initialized self = Inr (Buffer_initialized self)"

definition raw :: "Buffer \<Rightarrow> error + addr" where
  "raw self = property_get self (\<lambda>s. attr s Buffer_raw)"

definition nChannels :: "Buffer \<Rightarrow> error + nat" where
  "nChannels self = property_get self (\<lambda>s. attr s Buffer_nChannels)"

definition nSamples :: "Buffer \<Rightarrow> error + nat" where
  "nSamples self = property_get self (\<lambda>s. attr s Buffer_nSamples)"

definition bufSize :: "Buffer \<Rightarrow> error + nat" where
  "bufSize self = property_get self (\<lambda>s. attr s Buffer_bufSize)"

definition nptype :: "Buffer \<Rightarrow> error + string" where
  "nptype self = property_get self (\<lambda>s. attr s Buffer_nptype)"

subsection \<open>initialize_from_raw and initialize\<close>

definition initialize_from_raw :: "Buffer \<Rightarrow> addr \<Rightarrow> heap \<Rightarrow> error option \<times> Buffer" where
  "initialize_from_raw self r h =
     (let self1 = self\<lparr>Buffer_initialized := True\<rparr>;
          mem = deref h r
      in if length mem < sizeof_BufferHeader then (Some ValueError, self1)
         else case get_type (hdr_dataType mem) of
           Inl e \<Rightarrow> (Some e, self1)
         | Inr ty \<Rightarrow>
             (case np_itemsize ty of
                None \<Rightarrow> (Some TypeError, self1)
              | Some isz \<Rightarrow>
                  (let bufOffset = sizeof_BufferHeader;
                       bufFlatSize = hdr_bufSizeBytes mem div isz;
                       self2 = self1\<lparr>Buffer_raw := Some r, Buffer_hdr := Some r\<rparr>
                   in case frombuffer (length mem) isz bufFlatSize bufOffset of
                        Inl e \<Rightarrow> (Some e, self2)
                      | Inr n \<Rightarrow>
                          (case reshape_rows n (hdr_nSamples mem) of
                             Inl e \<Rightarrow> (Some e, self2)
                           | Inr rows \<Rightarrow>
                               (None, self2\<lparr>
                                  Buffer_buf := Some \<lparr>base = r, dtype = ty, itemsize = isz,
                                    offset = bufOffset, shape0 = rows,
                                    shape1 = hdr_nSamples mem,
                                    stride0 = hdr_nSamples mem * isz, writeable = True\<rparr>,
                                  Buffer_nChannels := Some (hdr_nChannels mem),
                                  Buffer_bufSize := Some rows,
                                  Buffer_nptype := Some ty\<rparr>)))))"

definition initialize :: "Buffer \<Rightarrow> int \<Rightarrow> int \<Rightarrow> string \<Rightarrow> heap \<Rightarrow> error option \<times> Buffer \<times> heap" where
  "initialize self nCh nS ty h =
     (if nCh < 1 \<or> nS < 1 then (Some (BufferError 1), self, h)
      else case np_itemsize ty of
        None \<Rightarrow> (Some TypeError, self, h)
      | Some isz \<Rightarrow>
          (let sizeBytes = int sizeof_BufferHeader + nS * nCh * int isz
           in case Array_c h sizeBytes of
                Inl e \<Rightarrow> (Some e, self, h)
              | Inr (r, h1) \<Rightarrow>
                  (let m1 = set_bufSizeBytes (deref h1 r) (sizeBytes - int sizeof_BufferHeader)
                   in case get_code ty of
                        Inl e \<Rightarrow> (Some e, self, h1[r := m1])
                      | Inr code \<Rightarrow>
                          (let m2 = set_dataType m1 (int code);
                               m3 = set_nChannels m2 nCh;
                               m4 = set_nSamples m3 nS;
                               h2 = h1[r := m4]
                           in case initialize_from_raw self r h2 of
                                (res, self') \<Rightarrow> (res, self', h2)))))"

subsection \<open>Reading and writing\<close>

text \<open>\<open>check_availablility\<close> returns 0 when \<open>start < end\<close>; its bare \<open>return\<close> gives
  Python's \<open>None\<close> otherwise.\<close>

definition check_availablility :: "int \<Rightarrow> int \<Rightarrow> int option" where
  "check_availablility start stop = (if start < stop then Some 0 else None)"

text \<open>\<open>if not av_error\<close> holds for 0 and for \<open>None\<close> alike.\<close>

definition read_buffer :: "Buffer \<Rightarrow> int \<Rightarrow> int \<Rightarrow> error + ndarray" where
  "read_buffer self start stop =
     (let av_error = check_availablility start stop
      in if av_error = None \<or> av_error = Some 0
         then (case attr self Buffer_buf of
                 Inl e \<Rightarrow> Inl e
               | Inr buf \<Rightarrow> Inr (getslice buf start stop))
         else Inl (BufferError (case av_error of Some c \<Rightarrow> c | None \<Rightarrow> 0)))"

definition get_data :: "Buffer \<Rightarrow> int \<Rightarrow> int \<Rightarrow> bool \<Rightarrow> error + ndarray" where
  "get_data self start stop wprotect =
     (case read_buffer self start stop of
        Inl e \<Rightarrow> Inl e
      | Inr data \<Rightarrow> Inr (setflags data (\<not> wprotect)))"

definition write_buffer :: "Buffer \<Rightarrow> ndata \<Rightarrow> int \<Rightarrow> int option \<Rightarrow> heap \<Rightarrow> error option \<times> heap" where
  "write_buffer self data start stop h =
     (case (case stop of
              Some e \<Rightarrow> Inr e
            | None \<Rightarrow> (case data of
                         Arr1 xs \<Rightarrow> Inl IndexError
                       | Arr2 c rows \<Rightarrow> Inr (start + int c))) of
        Inl e \<Rightarrow> (Some e, h)
      | Inr e \<Rightarrow>
          (case attr self Buffer_buf of
             Inl err \<Rightarrow> (Some err, h)
           | Inr buf \<Rightarrow> ndarray_assign (getslice buf start e) data h))"

definition put_data :: "Buffer \<Rightarrow> ndata \<Rightarrow> int \<Rightarrow> heap \<Rightarrow> error option \<times> heap" where
  "put_data self data start h =
     (case nChannels self of
        Inl e \<Rightarrow> (Some e, h)
      | Inr n \<Rightarrow>
          (case data of
             Arr2 c rows \<Rightarrow>
               if c \<noteq> n then (Some (BufferError 4), h)
               else write_buffer self data start (Some (start + int (len data))) h
           | Arr1 xs \<Rightarrow>
               if n \<noteq> 1 then (Some (BufferError 4), h)
               else write_buffer self data start (Some (start + int (len data))) h))"

subsection \<open>Notions used in the statements\<close>

text \<open>The 28 header bytes that hold the four field values.\<close>

definition header_bytes :: "nat \<Rightarrow> nat \<Rightarrow> nat \<Rightarrow> nat \<Rightarrow> byte list" where
  "header_bytes a b c d = le_bytes 8 a @ le_bytes 4 b @ le_bytes 8 c @ le_bytes 8 d"

text \<open>The object \<open>initialize_from_raw\<close> leaves behind when it returns normally on an array
  \<open>r\<close> whose header announces type \<open>ty\<close>, \<open>c\<close> channels and \<open>d\<close> samples.\<close>

definition attached :: "Buffer \<Rightarrow> addr \<Rightarrow> string \<Rightarrow> nat \<Rightarrow> nat \<Rightarrow> nat \<Rightarrow> Buffer" where
  "attached self r ty isz c d =
     self\<lparr>Buffer_initialized := True, Buffer_raw := Some r, Buffer_hdr := Some r,
       Buffer_buf := Some \<lparr>base = r, dtype = ty, itemsize = isz, offset = 28, shape0 = c,
         shape1 = d, stride0 = d * isz, writeable = True\<rparr>,
       Buffer_nChannels := Some c, Buffer_bufSize := Some c, Buffer_nptype := Some ty\<rparr>"

text \<open>The shape test at the head of \<open>put_data\<close>: the second dimension of a two-dimensional
  array, and 1 for a one-dimensional array, is compared with \<open>nChannels\<close>.\<close>

definition rejects :: "ndata \<Rightarrow> nat \<Rightarrow> bool" where
  "rejects d c = (case d of Arr1 xs \<Rightarrow> c \<noteq> 1 | Arr2 c' rows \<Rightarrow> c' \<noteq> c)"

text \<open>The width of the element type of a code, as \<open>initialize_from_raw\<close> computes it:
  \<open>np.dtype(datatypes.get_type(code)).itemsize\<close>.\<close>

definition byteWidth :: "nat \<Rightarrow> nat option" where
  "byteWidth code = (case get_type code of Inl e \<Rightarrow> None | Inr t \<Rightarrow> np_itemsize t)"

text \<open>The Buffer objects a program can hold: \<open>__init__\<close> makes one, and only \<open>initialize\<close>
  and \<open>initialize_from_raw\<close> assign attributes, whether they return or raise.\<close>

inductive reachable :: "Buffer \<Rightarrow> bool" where
  fresh: "reachable Buffer_init"
| by_initialize: "reachable b \<Longrightarrow> initialize b nCh nS ty h = (r, b', h') \<Longrightarrow> reachable b'"
| by_initialize_from_raw: "reachable b \<Longrightarrow> initialize_from_raw b a h = (r, b') \<Longrightarrow> reachable b'"

text \<open>The module's demonstration, \<open>buf1 = Buffer(); buf1.initialize(2, 15)\<close>, on an empty
  heap, and the same with a single channel.\<close>

definition buf1 :: "error option \<times> Buffer \<times> heap" where
  "buf1 = initialize Buffer_init 2 15 ''float32'' []"


section \<open>Auxiliary facts\<close>

lemma length_le_bytes [simp]: "length (le_bytes k n) = k"
  by (induction k arbitrary: n) auto

lemma le_nat_le_bytes: "le_nat (le_bytes k n) = n mod 256 ^ k"
proof (induction k arbitrary: n)
  case 0
  show ?case by simp
next
  case (Suc k)
  have "unat (of_nat (n mod 256) :: byte) = n mod 256"
    by (simp add: unat_of_nat)
  then show ?case
    using Suc [of "n div 256"] by (simp add: mod_mult2_eq)
qed

lemma write_bytes_mid:
  "length xs = off \<Longrightarrow> length old = length bs \<Longrightarrow>
   write_bytes (xs @ old @ rest) off bs = xs @ bs @ rest"
  by (simp add: write_bytes_def)

lemma header_written:
  "set_nSamples (set_nChannels (set_dataType (set_bufSizeBytes (replicate (28 + D) 0) a) b) c) d =
   header_bytes (nat (a mod 2 ^ 64)) (nat (b mod 2 ^ 32)) (nat (c mod 2 ^ 64)) (nat (d mod 2 ^ 64))
     @ replicate D 0"
proof -
  let ?z = "\<lambda>n. replicate n (0::byte)"
  let ?A = "le_bytes 8 (nat (a mod 2 ^ 64))"
  let ?B = "le_bytes 4 (nat (b mod 2 ^ 32))"
  let ?C = "le_bytes 8 (nat (c mod 2 ^ 64))"
  let ?D = "le_bytes 8 (nat (d mod 2 ^ 64))"
  have split: "?z (28 + D) = [] @ ?z 8 @ (?z 4 @ ?z 8 @ ?z 8 @ ?z D)"
    by (simp flip: replicate_add)
  have s1: "set_bufSizeBytes (?z (28 + D)) a = ?A @ ?z 4 @ (?z 8 @ ?z 8 @ ?z D)"
    unfolding split set_bufSizeBytes_def set_field_def
    by (subst write_bytes_mid) simp_all
  have s2: "set_dataType (?A @ ?z 4 @ (?z 8 @ ?z 8 @ ?z D)) b = (?A @ ?B) @ ?z 8 @ (?z 8 @ ?z D)"
    unfolding set_dataType_def set_field_def
    by (subst write_bytes_mid) simp_all
  have s3: "set_nChannels ((?A @ ?B) @ ?z 8 @ (?z 8 @ ?z D)) c = (?A @ ?B @ ?C) @ ?z 8 @ ?z D"
    unfolding set_nChannels_def set_field_def
    by (subst write_bytes_mid) simp_all
  have s4: "set_nSamples ((?A @ ?B @ ?C) @ ?z 8 @ ?z D) d = (?A @ ?B @ ?C) @ ?D @ ?z D"
    unfolding set_nSamples_def set_field_def
    by (subst write_bytes_mid) simp_all
  show ?thesis
    unfolding s1 s2 s3 s4 by (simp add: header_bytes_def)
qed

lemma header_read:
  assumes "a < 2 ^ 64" "b < 2 ^ 32" "c < 2 ^ 64" "d < 2 ^ 64"
  shows "hdr_bufSizeBytes (header_bytes a b c d @ rest) = a"
    and "hdr_dataType (header_bytes a b c d @ rest) = b"
    and "hdr_nChannels (header_bytes a b c d @ rest) = c"
    and "hdr_nSamples (header_bytes a b c d @ rest) = d"
  using assms
  by (simp_all add: hdr_bufSizeBytes_def hdr_dataType_def hdr_nChannels_def hdr_nSamples_def
      read_bytes_def header_bytes_def le_nat_le_bytes)

lemma length_header_bytes [simp]: "length (header_bytes a b c d) = 28"
  by (simp add: header_bytes_def)

lemma get_code_cases:
  "get_code ty = Inr code \<Longrightarrow>
     (ty = ''float32'' \<and> code = 0 \<and> np_itemsize ty = Some 4) \<or>
     (ty = ''int16'' \<and> code = 1 \<and> np_itemsize ty = Some 2)"
  by (auto simp: get_code_def types_def np_itemsize_def split: if_splits)

lemma get_type_get_code: "get_code ty = Inr code \<Longrightarrow> get_type code = Inr ty"
  by (auto simp: get_code_def get_type_def types_def split: if_splits)

lemma initialize_from_raw_header:
  assumes mem: "deref h r = header_bytes (c * d * isz) code c d @ body"
    and body: "length body = c * d * isz"
    and ty: "get_type code = Inr ty" "np_itemsize ty = Some isz"
    and pos: "0 < isz" "0 < d"
    and bnd: "c * d * isz < 2 ^ 64" "code < 2 ^ 32" "c < 2 ^ 64" "d < 2 ^ 64"
  shows "initialize_from_raw self r h = (None, attached self r ty isz c d)"
proof -
  note rd = header_read [OF bnd, of body]
  have flat: "c * d * isz div isz = c * d"
    using pos by simp
  have rows: "reshape_rows (c * d) d = Inr c"
    using pos by (simp add: reshape_rows_def)
  have fb: "frombuffer (28 + c * d * isz) isz (c * d) 28 = Inr (c * d)"
    by (simp add: frombuffer_def)
  show ?thesis
    unfolding initialize_from_raw_def mem
    by (simp add: Let_def rd ty body flat rows fb sizeof_BufferHeader_def attached_def)
qed

lemma initialize_ok:
  assumes pos: "1 \<le> nCh" "1 \<le> nS"
    and ty: "get_code ty = Inr code" "np_itemsize ty = Some isz"
    and fit: "28 + nS * nCh * int isz \<le> ssize_max"
  shows "initialize self nCh nS ty h =
     (None, attached self (length h) ty isz (nat nCh) (nat nS),
      h @ [header_bytes (nat nCh * nat nS * isz) code (nat nCh) (nat nS)
             @ replicate (nat nCh * nat nS * isz) 0])"
proof -
  from get_code_cases [OF ty(1)] ty(2) have isz: "0 < isz" and code: "code < 2 ^ 32"
    by auto
  define D where "D = nat nCh * nat nS * isz"
  have D: "nS * nCh * int isz = int D"
    using pos by (simp add: D_def)
  have fit': "28 + int D \<le> 2 ^ 63 - 1"
    using fit unfolding D by (simp add: ssize_max_def)
  have one: "1 \<le> nat nCh" "1 \<le> nat nS" "1 \<le> isz"
    using pos isz by simp_all
  have "nat nCh * 1 \<le> nat nCh * (nat nS * isz)"
    using one by (intro mult_le_mono2) (simp add: Suc_le_eq)
  moreover have "nat nS * 1 \<le> nat nS * (nat nCh * isz)"
    using one by (intro mult_le_mono2) (simp add: Suc_le_eq)
  ultimately have le1: "nat nCh \<le> D" "nat nS \<le> D"
    by (simp_all add: mult_ac D_def)
  have b1: "int D mod 2 ^ 64 = int D"
    using fit' by simp
  have "int (nat nCh) < 2 ^ 63" "int (nat nS) < 2 ^ 63"
    using fit' le1 by linarith+
  then have b2: "nCh mod 2 ^ 64 = nCh" "nS mod 2 ^ 64 = nS"
    using pos by simp_all
  have b3: "int code mod 2 ^ 32 = int code"
    using code by simp
  have alloc: "Array_c h (28 + int D) = Inr (length h, h @ [replicate (28 + D) 0])"
    using fit' by (simp add: Array_c_def ssize_max_def nat_add_distrib)
  let ?m = "header_bytes D code (nat nCh) (nat nS) @ replicate D 0"
  have hw: "set_nSamples (set_nChannels (set_dataType (set_bufSizeBytes (replicate (28 + D) 0)
               (int D)) (int code)) nCh) nS = ?m"
    by (simp only: header_written b1 b2 b3 nat_int)
  have "D < 2 ^ 64"
    using fit' by simp
  then have bnd: "D < 2 ^ 64" "nat nCh < 2 ^ 64" "nat nS < 2 ^ 64"
    using le1 by simp_all
  have att: "initialize_from_raw self (length h) (h @ [?m]) =
      (None, attached self (length h) ty isz (nat nCh) (nat nS))"
    by (rule initialize_from_raw_header [where code = code and body = "replicate D 0"])
       (use pos isz ty bnd code in \<open>simp_all add: deref_def get_type_get_code D_def\<close>)
  have "initialize self nCh nS ty h =
      (None, attached self (length h) ty isz (nat nCh) (nat nS), h @ [?m])"
    using pos by (simp add: initialize_def sizeof_BufferHeader_def D ty alloc deref_def hw att)
  then show ?thesis
    by (simp add: D_def)
qed

lemma initialize_success:
  assumes "initialize self nCh nS ty h = (None, b, h')"
  shows "1 \<le> nCh \<and> 1 \<le> nS \<and>
    (\<exists>code isz. get_code ty = Inr code \<and> np_itemsize ty = Some isz \<and>
       28 + nS * nCh * int isz \<le> ssize_max)"
  using assms
  by (auto simp: initialize_def Array_c_def sizeof_BufferHeader_def Let_def
      split: if_splits option.splits sum.splits prod.splits)

lemma initialize_result:
  assumes "initialize self nCh nS ty h = (None, b, h')"
  obtains code isz where "get_code ty = Inr code" "np_itemsize ty = Some isz"
    "1 \<le> nCh" "1 \<le> nS" "28 + nS * nCh * int isz \<le> ssize_max"
    "b = attached self (length h) ty isz (nat nCh) (nat nS)"
    "h' = h @ [header_bytes (nat nCh * nat nS * isz) code (nat nCh) (nat nS)
             @ replicate (nat nCh * nat nS * isz) 0]"
proof -
  from initialize_success [OF assms] obtain code isz where
    c: "1 \<le> nCh" "1 \<le> nS" "get_code ty = Inr code" "np_itemsize ty = Some isz"
       "28 + nS * nCh * int isz \<le> ssize_max"
    by blast
  from initialize_ok [OF c, of self h] assms that c show thesis
    by simp
qed


lemma stretch_zero [simp]: "stretch xs 0 = []"
  by (simp add: stretch_def)


lemma update_deref [simp]: "h[a := deref h a] = h"
  by (simp add: deref_def list_update_beyond)





lemma getslice_fields:
  "shape1 (getslice v a b) = clip_index (shape1 v) b - clip_index (shape1 v) a"
  "offset (getslice v a b) =
     offset v + (if clip_index (shape1 v) a < clip_index (shape1 v) b
                 then clip_index (shape1 v) a else 0) * itemsize v"
  "shape0 (getslice v a b) = shape0 v"
  "itemsize (getslice v a b) = itemsize v"
  "stride0 (getslice v a b) = stride0 v"
  "base (getslice v a b) = base v"
  "writeable (getslice v a b) = writeable v"
  by (simp_all add: getslice_def Let_def)


lemma attached_props:
  "nChannels (attached self r ty isz c d) = Inr c"
  "bufSize (attached self r ty isz c d) = Inr c"
  "nptype (attached self r ty isz c d) = Inr ty"
  "raw (attached self r ty isz c d) = Inr r"
  "is_initialized (attached self r ty isz c d) = Inr True"
  "attr (attached self r ty isz c d) Buffer_buf =
     Inr \<lparr>base = r, dtype = ty, itemsize = isz, offset = 28, shape0 = c,
         shape1 = d, stride0 = d * isz, writeable = True\<rparr>"
  by (simp_all add: attached_def nChannels_def bufSize_def nptype_def raw_def is_initialized_def
      property_get_def attr_def)

lemma put_data_attached:
  "put_data (attached self r ty isz c n) d start h =
     (if rejects d c then (Some (BufferError 4), h)
      else ndarray_assign
        (getslice \<lparr>base = r, dtype = ty, itemsize = isz, offset = 28, shape0 = c,
           shape1 = n, stride0 = n * isz, writeable = True\<rparr> start (start + int (len d))) d h)"
  by (cases d) (simp_all add: put_data_def write_buffer_def attached_props rejects_def)

lemma le_nat_zeros [simp]: "le_nat (replicate m 0) = 0"
  by (induction m) auto

lemma getitem_zero_body:
  assumes "deref h (base v) = hd28 @ replicate D 0" "length hd28 = 28" "28 \<le> offset v"
  shows "ndarray_getitem h v i j = 0"
proof -
  have "28 \<le> elem_off v i j"
    using assms(3) by (simp add: elem_off_def)
  then show ?thesis
    by (simp add: ndarray_getitem_def assms(1,2) read_bytes_def)
qed

lemma tolist_zero_body:
  assumes "deref h (base v) = hd28 @ replicate D 0" "length hd28 = 28" "28 \<le> offset v"
  shows "ndarray_tolist h v = replicate (shape0 v) (replicate (shape1 v) 0)"
  by (simp add: ndarray_tolist_def getitem_zero_body [OF assms] map_replicate_const)

lemma initialize_unregistered:
  assumes "1 \<le> nCh" "1 \<le> nS" "ty \<notin> snd ` set types"
  shows "(fst (initialize self nCh nS ty h) = Some TypeError \<or>
          fst (initialize self nCh nS ty h) = Some OverflowError \<or>
          fst (initialize self nCh nS ty h) = Some ValueError) \<and>
         fst (snd (initialize self nCh nS ty h)) = self"
proof -
  have "get_code ty = Inl ValueError"
    using assms(3) by (auto simp: get_code_def types_def)
  then show ?thesis
    using assms(1,2)
    by (auto simp: initialize_def Array_c_def Let_def split: option.splits)
qed

lemma initialize_too_large:
  assumes "1 \<le> nCh" "1 \<le> nS" "np_itemsize ty = Some isz" "ssize_max < 28 + nS * nCh * int isz"
  shows "initialize self nCh nS ty h = (Some OverflowError, self, h)"
proof -
  have "0 \<le> nS * nCh * int isz"
    using assms(1,2) by simp
  then have "Array_c h (28 + nS * nCh * int isz) = Inl OverflowError"
    using assms(4) by (simp add: Array_c_def)
  then show ?thesis
    using assms(1,2,3) by (simp add: initialize_def sizeof_BufferHeader_def)
qed

lemma registered_cases:
  "ty \<in> snd ` set types \<Longrightarrow> \<exists>code. get_code ty = Inr code"
  by (auto simp: get_code_def types_def)

lemma get_code_float32: "get_code ''float32'' = Inr 0"
  by (simp add: get_code_def types_def)

lemma np_itemsize_float32: "np_itemsize ''float32'' = Some 4"
  by (simp add: np_itemsize_def)

lemma buf1_eq:
  "buf1 = (None, attached Buffer_init 0 ''float32'' 4 2 15,
           [header_bytes 120 0 2 15 @ replicate 120 0])"
  unfolding buf1_def
  by (subst initialize_ok [OF _ _ get_code_float32 np_itemsize_float32])
     (simp_all add: ssize_max_def)


lemma get_data_attached:
  "get_data (attached self r ty isz c n) start stop w =
     Inr (setflags (getslice \<lparr>base = r, dtype = ty, itemsize = isz, offset = 28, shape0 = c,
           shape1 = n, stride0 = n * isz, writeable = True\<rparr> start stop) (\<not> w))"
  by (simp add: get_data_def read_buffer_def check_availablility_def attached_props)

lemma Buffer_buf_attached:
  "Buffer_buf (attached self r ty isz c d) =
     Some \<lparr>base = r, dtype = ty, itemsize = isz, offset = 28, shape0 = c,
         shape1 = d, stride0 = d * isz, writeable = True\<rparr>"
  by (simp add: attached_def)

lemma byteWidth_registered:
  "get_code ty = Inr code \<Longrightarrow> np_itemsize ty = Some isz \<Longrightarrow> byteWidth code = Some isz"
  by (simp add: byteWidth_def get_type_get_code)

lemma initialize_from_raw_nSamples:
  "Buffer_nSamples (snd (initialize_from_raw b a h)) = Buffer_nSamples b"
  by (simp add: initialize_from_raw_def Let_def split: sum.splits option.splits)

lemma initialize_from_raw_initialized:
  "Buffer_initialized (snd (initialize_from_raw b a h))"
  by (simp add: initialize_from_raw_def Let_def split: sum.splits option.splits)

lemma initialize_from_raw_nSamples':
  "initialize_from_raw b a h = (r, b') \<Longrightarrow> Buffer_nSamples b' = Buffer_nSamples b"
  using initialize_from_raw_nSamples [of b a h] by simp

lemma initialize_nSamples:
  "Buffer_nSamples (fst (snd (initialize b nCh nS ty h))) = Buffer_nSamples b"
  by (auto simp: initialize_def Let_def dest: initialize_from_raw_nSamples'
      split: sum.splits option.splits prod.splits)

lemma reachable_nSamples: "reachable b \<Longrightarrow> Buffer_nSamples b = None"
proof (induction rule: reachable.induct)
  case fresh
  show ?case by (simp add: Buffer_init_def)
next
  case (by_initialize b nCh nS ty h r b' h')
  with initialize_nSamples [of b nCh nS ty h] show ?case by simp
next
  case (by_initialize_from_raw b a h r b')
  with initialize_from_raw_nSamples [of b a h] show ?case by simp
qed

lemma nSamples_unassigned:
  "Buffer_nSamples b = None \<Longrightarrow> Buffer_initialized b \<Longrightarrow> nSamples b = Inl AttributeError"
  by (simp add: nSamples_def property_get_def attr_def getattr_hook_def)

lemma buf1_initialize:
  "initialize Buffer_init 2 15 ''float32'' [] = (None, fst (snd buf1), snd (snd buf1))"
  using buf1_eq by (simp add: buf1_def)

subsection \<open>Writing and reading back\<close>

text \<open>
  Stores into a view stay inside the rows they address, so a block that \<open>put_data\<close> accepts
  is read back as written (\<open>put_get_square\<close>, for the square blocks that pass its shape
  test), and no \<open>put_data\<close> touches the header (\<open>put_data_keeps_header\<close>).
\<close>

lemma write_bytes_length:
  "off + length bs \<le> length mem \<Longrightarrow> length (write_bytes mem off bs) = length mem"
  by (simp add: write_bytes_def)

lemma read_write_same:
  "off + length bs \<le> length mem \<Longrightarrow> read_bytes (write_bytes mem off bs) off (length bs) = bs"
  by (simp add: write_bytes_def read_bytes_def)

lemma read_write_below:
  "off + length bs \<le> length mem \<Longrightarrow> p + cnt \<le> off \<Longrightarrow>
   read_bytes (write_bytes mem off bs) p cnt = read_bytes mem p cnt"
  by (simp add: write_bytes_def read_bytes_def drop_take)

lemma read_write_above:
  "off + length bs \<le> length mem \<Longrightarrow> off + length bs \<le> p \<Longrightarrow>
   read_bytes (write_bytes mem off bs) p cnt = read_bytes mem p cnt"
  by (simp add: write_bytes_def read_bytes_def)


lemma elem_off_Suc: "elem_off t i (Suc j) = elem_off t i j + itemsize t"
  by (simp add: elem_off_def)

lemma store_row_props:
  assumes "elem_off t i j + length xs * itemsize t \<le> length mem"
  shows "length (store_row t i j xs mem) = length mem \<and>
    (\<forall>p cnt. p + cnt \<le> elem_off t i j \<longrightarrow>
       read_bytes (store_row t i j xs mem) p cnt = read_bytes mem p cnt) \<and>
    (\<forall>q < length xs.
       read_bytes (store_row t i j xs mem) (elem_off t i j + q * itemsize t) (itemsize t) =
         le_bytes (itemsize t) (xs ! q))"
  using assms
proof (induction xs arbitrary: j mem)
  case Nil
  then show ?case by simp
next
  case (Cons x xs)
  let ?w = "write_bytes mem (elem_off t i j) (le_bytes (itemsize t) x)"
  have fit: "elem_off t i j + length (le_bytes (itemsize t) x) \<le> length mem"
    using Cons.prems by simp
  have len: "length ?w = length mem"
    using fit by (rule write_bytes_length)
  have "elem_off t i (Suc j) + length xs * itemsize t \<le> length ?w"
    using Cons.prems by (simp add: elem_off_Suc len)
  from Cons.IH [OF this] have
    L: "length (store_row t i (Suc j) xs ?w) = length mem" and
    F: "\<And>p cnt. p + cnt \<le> elem_off t i (Suc j) \<Longrightarrow>
         read_bytes (store_row t i (Suc j) xs ?w) p cnt = read_bytes ?w p cnt" and
    R: "\<And>q. q < length xs \<Longrightarrow>
         read_bytes (store_row t i (Suc j) xs ?w) (elem_off t i (Suc j) + q * itemsize t)
           (itemsize t) = le_bytes (itemsize t) (xs ! q)"
    by (simp_all add: len)
  have frame: "read_bytes (store_row t i j (x # xs) mem) p cnt = read_bytes mem p cnt"
    if "p + cnt \<le> elem_off t i j" for p cnt
  proof -
    have "read_bytes (store_row t i (Suc j) xs ?w) p cnt = read_bytes ?w p cnt"
      using that by (intro F) (simp add: elem_off_Suc)
    also have "\<dots> = read_bytes mem p cnt"
      using fit that by (rule read_write_below)
    finally show ?thesis by simp
  qed
  have rd: "read_bytes (store_row t i j (x # xs) mem) (elem_off t i j + q * itemsize t)
      (itemsize t) = le_bytes (itemsize t) ((x # xs) ! q)"
    if "q < length (x # xs)" for q
  proof (cases q)
    case 0
    have "read_bytes (store_row t i (Suc j) xs ?w) (elem_off t i j) (itemsize t) =
        read_bytes ?w (elem_off t i j) (itemsize t)"
      by (intro F) (simp add: elem_off_Suc)
    also have "\<dots> = le_bytes (itemsize t) x"
      using read_write_same [OF fit] by simp
    finally show ?thesis using 0 by simp
  next
    case (Suc q')
    with that have "q' < length xs" by simp
    have e: "elem_off t i j + q * itemsize t = elem_off t i (Suc j) + q' * itemsize t"
      using Suc by (simp add: elem_off_Suc)
    show ?thesis
      unfolding e using R [OF \<open>q' < length xs\<close>] Suc by simp
  qed
  from L frame rd show ?case
    by simp
qed


lemma elem_off_row: "elem_off t (Suc i) j = elem_off t i j + stride0 t"
  by (simp add: elem_off_def)

lemma elem_off_col: "elem_off t i j = elem_off t i 0 + j * itemsize t"
  by (simp add: elem_off_def)

lemma store_rows_props:
  assumes "list_all (\<lambda>r. length r = W) m"
    and "W * itemsize t \<le> stride0 t"
    and "\<forall>q < length m. elem_off t (i + q) 0 + W * itemsize t \<le> length mem"
  shows "length (store_rows t i m mem) = length mem \<and>
    (\<forall>p cnt. p + cnt \<le> elem_off t i 0 \<longrightarrow>
       read_bytes (store_rows t i m mem) p cnt = read_bytes mem p cnt) \<and>
    (\<forall>q < length m. \<forall>j < W.
       read_bytes (store_rows t i m mem) (elem_off t (i + q) j) (itemsize t) =
         le_bytes (itemsize t) (m ! q ! j))"
  using assms
proof (induction m arbitrary: i mem)
  case Nil
  then show ?case by simp
next
  case (Cons r rs)
  let ?m1 = "store_row t i 0 r mem"
  from Cons.prems(1) have r: "length r = W" and rs: "list_all (\<lambda>r. length r = W) rs"
    by simp_all
  from Cons.prems(3) have b0: "elem_off t i 0 + length r * itemsize t \<le> length mem"
    using r by auto
  note row = store_row_props [OF b0]
  from row have len1: "length ?m1 = length mem"
    by simp
  have "\<forall>q < length rs. elem_off t (Suc i + q) 0 + W * itemsize t \<le> length ?m1"
    using Cons.prems(3) by (auto simp: len1)
  from Cons.IH [OF rs Cons.prems(2) this] have
    L: "length (store_rows t (Suc i) rs ?m1) = length mem" and
    F: "\<And>p cnt. p + cnt \<le> elem_off t (Suc i) 0 \<Longrightarrow>
         read_bytes (store_rows t (Suc i) rs ?m1) p cnt = read_bytes ?m1 p cnt" and
    R: "\<And>q j. q < length rs \<Longrightarrow> j < W \<Longrightarrow>
         read_bytes (store_rows t (Suc i) rs ?m1) (elem_off t (Suc i + q) j) (itemsize t) =
           le_bytes (itemsize t) (rs ! q ! j)"
    by (simp_all add: len1)
  have frame: "read_bytes (store_rows t i (r # rs) mem) p cnt = read_bytes mem p cnt"
    if "p + cnt \<le> elem_off t i 0" for p cnt
  proof -
    have "read_bytes (store_rows t (Suc i) rs ?m1) p cnt = read_bytes ?m1 p cnt"
      using that by (intro F) (simp add: elem_off_row)
    also have "\<dots> = read_bytes mem p cnt"
      using row that by simp
    finally show ?thesis by simp
  qed
  have rd: "read_bytes (store_rows t i (r # rs) mem) (elem_off t (i + q) j) (itemsize t) =
      le_bytes (itemsize t) ((r # rs) ! q ! j)"
    if "q < length (r # rs)" "j < W" for q j
  proof (cases q)
    case 0
    have "Suc j * itemsize t \<le> W * itemsize t"
      using that(2) by (intro mult_le_mono1) simp
    then have "elem_off t i j + itemsize t \<le> elem_off t (Suc i) 0"
      using Cons.prems(2) by (simp add: elem_off_row elem_off_col [of t i j])
    then have "read_bytes (store_rows t (Suc i) rs ?m1) (elem_off t i j) (itemsize t) =
        read_bytes ?m1 (elem_off t i j) (itemsize t)"
      by (rule F)
    also have "\<dots> = le_bytes (itemsize t) (r ! j)"
      using row that(2) r by (simp add: elem_off_col [of t i j])
    finally show ?thesis using 0 by simp
  next
    case (Suc q')
    with that have "q' < length rs" by simp
    from R [OF this that(2)] show ?thesis
      using Suc by simp
  qed
  from L frame rd show ?case
    by simp
qed


lemma stretch_same: "length xs = n \<Longrightarrow> stretch xs n = xs"
  by (simp add: stretch_def)

lemma broadcast_exact:
  assumes "length rows = R" "list_all (\<lambda>row. length row = W) rows"
  shows "broadcast (Arr2 W rows) R W = Some rows"
proof -
  have "map (\<lambda>r. stretch r W) rows = rows"
    using assms(2) by (induction rows) (simp_all add: stretch_same)
  then show ?thesis
    using assms(1) by (simp add: fits_def stretch_same)
qed

lemma tolist_nth:
  assumes "length rows = shape0 v" "list_all (\<lambda>row. length row = shape1 v) rows"
    and "\<And>i j. i < shape0 v \<Longrightarrow> j < shape1 v \<Longrightarrow> ndarray_getitem h v i j = f (rows ! i ! j)"
  shows "ndarray_tolist h v = map (map f) rows"
proof (rule nth_equalityI)
  show "length (ndarray_tolist h v) = length (map (map f) rows)"
    using assms(1) by (simp add: ndarray_tolist_def)
next
  fix i assume "i < length (ndarray_tolist h v)"
  then have i: "i < shape0 v"
    by (simp add: ndarray_tolist_def)
  with assms(1,2) have len: "length (rows ! i) = shape1 v"
    by (simp add: list_all_length)
  have "map (\<lambda>j. ndarray_getitem h v i j) [0..<shape1 v] = map f (rows ! i)"
    by (rule nth_equalityI) (simp_all add: len assms(3) [OF i])
  then show "ndarray_tolist h v ! i = map (map f) rows ! i"
    using i assms(1) by (simp add: ndarray_tolist_def)
qed

lemma put_get_square:
  assumes r: "r < length h" and mem: "28 + c * n * isz \<le> length (h ! r)"
    and sq: "length rows = c" "list_all (\<lambda>row. length row = c) rows"
    and rng: "0 \<le> start" "start + int c \<le> int n"
  shows "fst (put_data (attached self r ty isz c n) (Arr2 c rows) start h) = None"
    and "map_sum id (ndarray_tolist (snd (put_data (attached self r ty isz c n) (Arr2 c rows) start h)))
           (get_data (attached other r ty isz c n) start (start + int c) w) =
         Inr (map (map (\<lambda>x. x mod 256 ^ isz)) rows)"
    and "take 28 (deref (snd (put_data (attached self r ty isz c n) (Arr2 c rows) start h)) r) =
         take 28 (h ! r)"
proof -
  define s where "s = (if c = 0 then 0 else nat start)"
  define t where "t = \<lparr>base = r, dtype = ty, itemsize = isz, offset = 28 + s * isz, shape0 = c,
           shape1 = c, stride0 = n * isz, writeable = True\<rparr>"
  from rng have "nat start + c \<le> n"
    by linarith
  then have sc: "s + c \<le> n"
    by (simp add: s_def)
  have gs: "getslice \<lparr>base = r, dtype = ty, itemsize = isz, offset = 28, shape0 = c,
           shape1 = n, stride0 = n * isz, writeable = True\<rparr> start (start + int c) = t"
  proof (cases "c = 0")
    case True
    then show ?thesis
      by (simp add: getslice_def t_def s_def)
  next
    case False
    with rng show ?thesis
      by (simp add: getslice_def clip_index_def t_def s_def nat_add_distrib)
  qed
  define mem' where "mem' = store_rows t 0 rows (h ! r)"
  have put: "put_data (attached self r ty isz c n) (Arr2 c rows) start h = (None, h[r := mem'])"
  proof -
    have "put_data (attached self r ty isz c n) (Arr2 c rows) start h =
        ndarray_assign t (Arr2 c rows) h"
      by (simp add: put_data_attached rejects_def sq(1) gs)
    also have "\<dots> = (None, h[r := mem'])"
    proof -
      have "broadcast (Arr2 c rows) (shape0 t) (shape1 t) = Some rows"
        using broadcast_exact [OF sq] by (simp add: t_def del: broadcast.simps)
      moreover have "writeable t" "base t = r"
        by (simp_all add: t_def)
      ultimately show ?thesis
        using r by (simp add: ndarray_assign_def mem'_def deref_def del: broadcast.simps)
    qed
    finally show ?thesis .
  qed
  have get: "get_data (attached other r ty isz c n) start (start + int c) w =
      Inr (t\<lparr>writeable := \<not> w\<rparr>)"
    by (simp add: get_data_attached gs setflags_def)
  have W: "c * itemsize t \<le> stride0 t"
    using sc by (simp add: t_def)
  have bound: "\<forall>q < length rows. elem_off t (0 + q) 0 + c * itemsize t \<le> length (h ! r)"
  proof (intro allI impI)
    fix q assume "q < length rows"
    then have "Suc q \<le> c" using sq(1) by simp
    then have "Suc q * (n * isz) \<le> c * (n * isz)"
      by (rule mult_le_mono1)
    moreover have "(s + c) * isz \<le> n * isz"
      using sc by (rule mult_le_mono1)
    ultimately have "28 + s * isz + q * (n * isz) + c * isz \<le> 28 + c * n * isz"
      by (simp add: algebra_simps)
    with mem show "elem_off t (0 + q) 0 + c * itemsize t \<le> length (h ! r)"
      by (simp add: elem_off_def t_def)
  qed
  note sp = store_rows_props [OF sq(2) W bound, folded mem'_def]
  have hd: "read_bytes mem' 0 28 = read_bytes (h ! r) 0 28"
    using sp by (simp add: elem_off_def t_def)
  have item: "ndarray_getitem (h[r := mem']) (t\<lparr>writeable := \<not> w\<rparr>) i j = rows ! i ! j mod 256 ^ isz"
    if "i < c" "j < c" for i j
  proof -
    have "read_bytes mem' (elem_off t i j) (itemsize t) = le_bytes (itemsize t) (rows ! i ! j)"
      using sp that sq(1) by simp
    then show ?thesis
      using r by (simp add: ndarray_getitem_def deref_def elem_off_def t_def le_nat_le_bytes)
  qed
  have tl: "ndarray_tolist (h[r := mem']) (t\<lparr>writeable := \<not> w\<rparr>) =
      map (map (\<lambda>x. x mod 256 ^ isz)) rows"
    by (rule tolist_nth) (use sq item in \<open>simp_all add: t_def\<close>)
  show "fst (put_data (attached self r ty isz c n) (Arr2 c rows) start h) = None"
    by (simp add: put)
  show "map_sum id (ndarray_tolist (snd (put_data (attached self r ty isz c n) (Arr2 c rows) start h)))
           (get_data (attached other r ty isz c n) start (start + int c) w) =
         Inr (map (map (\<lambda>x. x mod 256 ^ isz)) rows)"
    by (simp add: put get tl)
  show "take 28 (deref (snd (put_data (attached self r ty isz c n) (Arr2 c rows) start h)) r) =
         take 28 (h ! r)"
    using hd r by (simp add: put deref_def read_bytes_def)
qed


lemma length_stretch [simp]: "length (stretch xs n) = n"
  by (simp add: stretch_def)

lemma broadcast_shape:
  assumes "broadcast d R W = Some m"
  shows "length m = R \<and> list_all (\<lambda>r. length r = W) m"
proof (cases d)
  case (Arr1 xs)
  with assms show ?thesis
    by (auto simp: list_all_iff split: if_splits)
next
  case (Arr2 c rows)
  with assms have m: "m = stretch (map (\<lambda>r. stretch r W) rows) R" and f: "fits (length rows) R"
    by (auto split: if_splits)
  show ?thesis
  proof (cases "length rows = R")
    case True
    then show ?thesis by (simp add: m stretch_same list_all_iff)
  next
    case False
    with f obtain r where "rows = [r]"
      by (cases rows) (auto simp: fits_def)
    with False show ?thesis
      by (simp add: m stretch_def list_all_iff)
  qed
qed

lemma clip_index_le: "clip_index n x \<le> n"
  by (auto simp: clip_index_def)

lemma put_data_keeps_header:
  assumes r: "r < length h" and mem: "28 + c * n * isz \<le> length (h ! r)"
  shows "take 28 (deref (snd (put_data (attached self r ty isz c n) d start h)) r) = take 28 (h ! r)"
    and "length (deref (snd (put_data (attached self r ty isz c n) d start h)) r) = length (h ! r)"
proof -
  define buf where "buf = \<lparr>base = r, dtype = ty, itemsize = isz, offset = 28, shape0 = c,
           shape1 = n, stride0 = n * isz, writeable = True\<rparr>"
  define W where "W = clip_index n (start + int (len d)) - clip_index n start"
  define s where "s = (if clip_index n start < clip_index n (start + int (len d))
    then clip_index n start else 0)"
  define t where "t = getslice buf start (start + int (len d))"
  have t: "offset t = 28 + s * isz" "shape1 t = W" "shape0 t = c" "itemsize t = isz"
    "stride0 t = n * isz" "base t = r"
    by (simp_all add: t_def getslice_fields buf_def s_def W_def)
  have se: "s + W \<le> n"
    using clip_index_le [of n "start + int (len d)"]
    by (simp add: s_def W_def)
  let ?res = "put_data (attached self r ty isz c n) d start h"
  have res: "?res = (Some (BufferError 4), h) \<or> ?res = ndarray_assign t d h"
    by (simp add: put_data_attached t_def buf_def)
  have keep: "take 28 (deref (snd (ndarray_assign t d h)) r) = take 28 (h ! r) \<and>
      length (deref (snd (ndarray_assign t d h)) r) = length (h ! r)"
  proof (cases "broadcast d (shape0 t) (shape1 t)")
    case None
    then show ?thesis
      using r by (simp add: ndarray_assign_def deref_def)
  next
    case (Some m)
    from broadcast_shape [OF Some] have lm: "length m = c"
      and rows: "list_all (\<lambda>row. length row = W) m"
      by (simp_all add: t)
    have W: "W * itemsize t \<le> stride0 t"
      using se by (simp add: t)
    have bound: "\<forall>q < length m. elem_off t (0 + q) 0 + W * itemsize t \<le> length (h ! r)"
    proof (intro allI impI)
      fix q assume "q < length m"
      then have "Suc q \<le> c" using lm by simp
      then have "Suc q * (n * isz) \<le> c * (n * isz)"
        by (rule mult_le_mono1)
      moreover have "(s + W) * isz \<le> n * isz"
        using se by (rule mult_le_mono1)
      ultimately have "28 + s * isz + q * (n * isz) + W * isz \<le> 28 + c * n * isz"
        by (simp add: algebra_simps)
      with mem show "elem_off t (0 + q) 0 + W * itemsize t \<le> length (h ! r)"
        by (simp add: elem_off_def t)
    qed
    from store_rows_props [OF rows W bound] have
      "length (store_rows t 0 m (h ! r)) = length (h ! r)"
      "read_bytes (store_rows t 0 m (h ! r)) 0 28 = read_bytes (h ! r) 0 28"
      by (simp_all add: elem_off_def t)
    then show ?thesis
      using r Some by (simp add: ndarray_assign_def deref_def read_bytes_def t)
  qed
  from res keep r show "take 28 (deref (snd ?res) r) = take 28 (h ! r)"
    by (auto simp: deref_def)
  from res keep r show "length (deref (snd ?res) r) = length (h ! r)"
    by (auto simp: deref_def)
qed

lemma initialize_from_raw_buf:
  assumes "initialize_from_raw self a h = (None, b)"
  shows "Buffer_buf b \<noteq> None"
  using assms
  by (auto simp: initialize_from_raw_def Let_def split: if_splits sum.splits option.splits)

lemma get_data_returns:
  assumes "Buffer_buf b = Some buf"
  shows "get_data b start stop w = Inr (setflags (getslice buf start stop) (\<not> w))"
  using assms by (simp add: get_data_def read_buffer_def check_availablility_def attr_def)




lemma view_run_protected:
  assumes "\<not> writeable v" "SetFlags True \<notin> set ops"
  shows "view_run ops v h = (map protected_outcome ops, v, h)"
  using assms
proof (induction ops)
  case Nil
  then show ?case by simp
next
  case (Cons a ops)
  from Cons.prems have step: "view_do a v h = (protected_outcome a, v, h)"
    by (cases a) (auto simp: ndarray_setitem_def ndarray_assign_def setflags_def)
  from Cons show ?case
    by (simp add: step)
qed

section \<open>The claims\<close>

text \<open>
  Claim C1. The claim asks for one of four classifications of \<open>[start, end)\<close>, with \<open>[5,8)\<close>,
  \<open>[8,12)\<close> and \<open>[12,15)\<close> classified differently. \<open>check_availablility\<close> takes no cursor
  and no capacity; it answers 0 for all three ranges, and for every range its answer is 0 or
  \<open>None\<close>, although its docstring lists the results 0, 1, 2 and 3.
\<close>

theorem check_availablility_two_valued:
  "check_availablility 5 8 = Some 0 \<and> check_availablility 8 12 = Some 0 \<and>
   check_availablility 12 15 = Some 0 \<and>
   (check_availablility start stop = Some 0 \<or> check_availablility start stop = None)"
  by (simp add: check_availablility_def)

text \<open>
  Claim C2. The claim is that a \<open>channelCount \<times> (end - start)\<close> matrix written at \<open>start\<close> is
  read back from \<open>[start, end)\<close>. On the 2-channel, 15-sample buffer, \<open>put_data\<close> refuses the
  \<open>2 \<times> 3\<close> matrix \<open>[[1,2,3],[4,5,6]]\<close> at column 0 with BufferError 4 and stores nothing: it
  compares the number of columns of the data with \<open>nChannels\<close>. Only a square block
  passes and is read back (\<open>put_get_square\<close>).
\<close>

theorem put_data_wide_matrix_refused:
  "fst buf1 = None \<and>
   put_data (fst (snd buf1)) (Arr2 3 [[1, 2, 3], [4, 5, 6]]) 0 (snd (snd buf1)) =
     (Some (BufferError 4), snd (snd buf1))"
  by (simp add: buf1_eq put_data_attached rejects_def)

text \<open>
  Claim C3. The claim is that \<open>get_data\<close> raises when \<open>end \<le> start\<close>. On the 2-channel,
  15-sample buffer \<open>get_data(3, 3)\<close> returns a view of 0 columns and \<open>get_data(5, -1)\<close> returns
  a view of the 9 columns 5 to 13: \<open>check_availablility\<close> answers \<open>None\<close> there, which
  \<open>__read_buffer\<close> takes for "no error".
\<close>

theorem get_data_empty_range_returns:
  "get_data (fst (snd buf1)) 3 3 True =
     Inr \<lparr>base = 0, dtype = ''float32'', itemsize = 4, offset = 28, shape0 = 2,
          shape1 = 0, stride0 = 60, writeable = False\<rparr> \<and>
   get_data (fst (snd buf1)) 5 (- 1) True =
     Inr \<lparr>base = 0, dtype = ''float32'', itemsize = 4, offset = 48, shape0 = 2,
          shape1 = 9, stride0 = 60, writeable = False\<rparr>"
  by (simp add: buf1_eq get_data_attached getslice_def clip_index_def setflags_def)

text \<open>
  Claim C4. The claim is that data whose row count differs from \<open>channelCount\<close> is refused
  with BufferError 4. On the 2-channel buffer the \<open>1 \<times> 2\<close> matrix \<open>[[5,6]]\<close> passes the shape
  test of \<open>put_data\<close> (it has 2 columns) and is refused only by numpy's assignment, with
  ValueError; the memory is unchanged.
\<close>

theorem put_data_row_mismatch_ValueError:
  "fst buf1 = None \<and>
   put_data (fst (snd buf1)) (Arr2 2 [[5, 6]]) 0 (snd (snd buf1)) =
     (Some ValueError, snd (snd buf1))"
  by (simp add: buf1_eq put_data_attached rejects_def getslice_def clip_index_def
      ndarray_assign_def fits_def)




text \<open>
  Claim C6, as amended. \<open>initialize\<close> raises BufferError 1 when \<open>nChannels < 1\<close> or
  \<open>nSamples < 1\<close>; with a type name that is not registered it raises the TypeError, ValueError
  or OverflowError of the library call that meets it first, and leaves the object as it was;
  with a registered name it raises OverflowError when header and data exceed \<open>2^63 - 1\<close> bytes,
  and otherwise succeeds: the object is initialized on a fresh array of \<open>28 + nChannels *
  nSamples * itemsize\<close> bytes whose data region is zero, every sample reads 0, and the arrays
  already in the heap are untouched.
\<close>

theorem initialize_outcome:
  "(if nCh < 1 \<or> nS < 1 then initialize self nCh nS ty h = (Some (BufferError 1), self, h)
    else if ty \<notin> snd ` set types then
      (fst (initialize self nCh nS ty h) = Some TypeError \<or>
       fst (initialize self nCh nS ty h) = Some OverflowError \<or>
       fst (initialize self nCh nS ty h) = Some ValueError) \<and>
      fst (snd (initialize self nCh nS ty h)) = self
    else case np_itemsize ty of
      None \<Rightarrow> False
    | Some isz \<Rightarrow>
        if ssize_max < 28 + nS * nCh * int isz
        then initialize self nCh nS ty h = (Some OverflowError, self, h)
        else case initialize self nCh nS ty h of (res, b, h') \<Rightarrow>
          res = None \<and> is_initialized b = Inr True \<and> raw b = Inr (length h) \<and>
          take (length h) h' = h \<and> length h' = Suc (length h) \<and>
          length (deref h' (length h)) = 28 + nat nCh * nat nS * isz \<and>
          drop 28 (deref h' (length h)) = replicate (nat nCh * nat nS * isz) 0 \<and>
          map_sum id (ndarray_tolist h') (attr b Buffer_buf) =
            Inr (replicate (nat nCh) (replicate (nat nS) 0)))"
proof (cases "nCh < 1 \<or> nS < 1")
  case True
  then show ?thesis
    by (simp add: initialize_def)
next
  case pos: False
  show ?thesis
  proof (cases "ty \<in> snd ` set types")
    case False
    with pos initialize_unregistered [of nCh nS ty self h] show ?thesis
      by simp
  next
    case True
    then obtain code where code: "get_code ty = Inr code"
      using registered_cases by blast
    with get_code_cases obtain isz where isz: "np_itemsize ty = Some isz"
      by blast
    show ?thesis
    proof (cases "ssize_max < 28 + nS * nCh * int isz")
      case big: True
      with pos True isz initialize_too_large [of nCh nS ty isz self h] show ?thesis
        by simp
    next
      case fit: False
      let ?D = "nat nCh * nat nS * isz"
      let ?hd = "header_bytes ?D code (nat nCh) (nat nS)"
      have ok: "initialize self nCh nS ty h =
          (None, attached self (length h) ty isz (nat nCh) (nat nS), h @ [?hd @ replicate ?D 0])"
        using pos fit by (intro initialize_ok code isz) simp_all
      have tl: "ndarray_tolist (h @ [?hd @ replicate ?D 0])
            \<lparr>base = length h, dtype = ty, itemsize = isz, offset = 28, shape0 = nat nCh,
              shape1 = nat nS, stride0 = nat nS * isz, writeable = True\<rparr> =
          replicate (nat nCh) (replicate (nat nS) 0)"
        by (subst tolist_zero_body [where ?hd28.0 = ?hd and D = ?D]) (simp_all add: deref_def)
      show ?thesis
        using pos True fit
        by (simp add: isz ok attached_props deref_def tl)
    qed
  qed
qed

theorem initialize_outcome_witness:
  "fst buf1 = None \<and> raw (fst (snd buf1)) = Inr 0 \<and>
   drop 28 (deref (snd (snd buf1)) 0) = replicate 120 0 \<and>
   initialize Buffer_init 0 15 ''float32'' [] = (Some (BufferError 1), Buffer_init, [])"
proof -
  have a: "fst buf1 = None \<and> raw (fst (snd buf1)) = Inr 0 \<and>
      drop 28 (deref (snd (snd buf1)) 0) = replicate 120 0"
    using initialize_outcome [of 2 15 Buffer_init "''float32''" "[]"]
    by (simp add: buf1_def types_def np_itemsize_def ssize_max_def split: prod.splits)
  have b: "initialize Buffer_init 0 15 ''float32'' [] = (Some (BufferError 1), Buffer_init, [])"
    using initialize_outcome [of 0 15 Buffer_init "''float32''" "[]"] by simp
  from a b show ?thesis by simp
qed

text \<open>Claim C6 as stated fails: with \<open>2^62\<close> channels of 2 float32 samples all three
  conditions hold and \<open>initialize\<close> raises; and the error for the unregistered name
  \<open>float64\<close> is the ValueError of \<open>list.index\<close>, not a BufferError.\<close>

theorem initialize_outcome_counterexample:
  "(1 :: int) \<le> 2 ^ 62 \<and> (1 :: int) \<le> 2 \<and> ''float32'' \<in> snd ` set types \<and>
   initialize Buffer_init (2 ^ 62) 2 ''float32'' [] = (Some OverflowError, Buffer_init, []) \<and>
   ''float64'' \<notin> snd ` set types \<and>
   fst (initialize Buffer_init 2 15 ''float64'' []) = Some ValueError"
proof -
  have "np_itemsize ''float64'' = Some 8"
    by (simp add: np_itemsize_def)
  moreover have "get_code ''float64'' = Inl ValueError"
    by (simp add: get_code_def types_def)
  ultimately have "fst (initialize Buffer_init 2 15 ''float64'' []) = Some ValueError"
    by (simp add: initialize_def Array_c_def ssize_max_def sizeof_BufferHeader_def)
  then show ?thesis
    by (simp add: types_def initialize_too_large [OF _ _ np_itemsize_float32] ssize_max_def)
qed

text \<open>
  Claim C7. After a successful \<open>initialize\<close> the header stored in the array satisfies
  \<open>bufSizeBytes = nChannels * nSamples * byteWidth(dataType)\<close> and holds the arguments; and
  \<open>initialize_from_raw\<close> of any other Buffer object on the same array succeeds and observes
  the same \<open>raw\<close>, \<open>nChannels\<close>, \<open>bufSize\<close>, \<open>nptype\<close> and array view as the creating object.
\<close>

theorem header_invariant_and_attach:
  assumes init: "initialize self nCh nS ty h = (None, b, h')"
  shows "(let mem = deref h' (length h);
              b2 = snd (initialize_from_raw other (length h) h')
          in raw b = Inr (length h) \<and>
             map_option (\<lambda>w. hdr_nChannels mem * hdr_nSamples mem * w)
               (byteWidth (hdr_dataType mem)) = Some (hdr_bufSizeBytes mem) \<and>
             int (hdr_nChannels mem) = nCh \<and> int (hdr_nSamples mem) = nS \<and>
             get_type (hdr_dataType mem) = Inr ty \<and>
             fst (initialize_from_raw other (length h) h') = None \<and>
             raw b2 = raw b \<and> nChannels b2 = nChannels b \<and> bufSize b2 = bufSize b \<and>
             nptype b2 = nptype b \<and> Buffer_buf b2 = Buffer_buf b \<and>
             nChannels b = Inr (hdr_nChannels mem) \<and> nptype b = Inr ty)"
proof -
  from init obtain code isz where ty: "get_code ty = Inr code" "np_itemsize ty = Some isz"
    and pos: "1 \<le> nCh" "1 \<le> nS" and fit: "28 + nS * nCh * int isz \<le> ssize_max"
    and b: "b = attached self (length h) ty isz (nat nCh) (nat nS)"
    and h': "h' = h @ [header_bytes (nat nCh * nat nS * isz) code (nat nCh) (nat nS)
             @ replicate (nat nCh * nat nS * isz) 0]"
    by (rule initialize_result)
  define D where "D = nat nCh * nat nS * isz"
  from get_code_cases [OF ty(1)] ty(2) have isz: "0 < isz" and code: "code < 2 ^ 32"
    by auto
  have mem: "deref h' (length h) = header_bytes D code (nat nCh) (nat nS) @ replicate D 0"
    by (simp add: h' deref_def D_def)
  have "int D = nS * nCh * int isz"
    using pos by (simp add: D_def)
  with fit have D: "int D < 2 ^ 63"
    by (simp add: ssize_max_def)
  have "nat nCh * 1 \<le> nat nCh * (nat nS * isz)"
    using pos isz by (intro mult_le_mono2) (simp add: Suc_le_eq)
  moreover have "nat nS * 1 \<le> nat nS * (nat nCh * isz)"
    using pos isz by (intro mult_le_mono2) (simp add: Suc_le_eq)
  ultimately have le: "nat nCh \<le> D" "nat nS \<le> D"
    by (simp_all add: D_def mult_ac)
  from D have "D < 2 ^ 64"
    by simp
  with le have bnd: "D < 2 ^ 64" "code < 2 ^ 32" "nat nCh < 2 ^ 64" "nat nS < 2 ^ 64"
    using code by simp_all
  note rd = header_read [OF bnd, of "replicate D 0", folded mem]
  have att: "initialize_from_raw other (length h) h' =
      (None, attached other (length h) ty isz (nat nCh) (nat nS))"
    by (rule initialize_from_raw_header [where code = code and body = "replicate D 0"])
       (use pos isz ty bnd mem in \<open>simp_all add: get_type_get_code D_def\<close>)
  show ?thesis
    using pos
    by (simp add: Let_def rd att b attached_props byteWidth_registered [OF ty]
        get_type_get_code [OF ty(1)] D_def Buffer_buf_attached)
qed

theorem header_invariant_and_attach_witness:
  "fst buf1 = None \<and>
   hdr_bufSizeBytes (deref (snd (snd buf1)) 0) = 120 \<and>
   hdr_nChannels (deref (snd (snd buf1)) 0) = 2 \<and>
   hdr_nSamples (deref (snd (snd buf1)) 0) = 15 \<and>
   fst (initialize_from_raw Buffer_init 0 (snd (snd buf1))) = None \<and>
   nChannels (snd (initialize_from_raw Buffer_init 0 (snd (snd buf1)))) = Inr 2"
proof -
  have f: "fst buf1 = None"
    by (simp add: buf1_eq)
  from header_invariant_and_attach [OF buf1_initialize, of Buffer_init] f show ?thesis
    by (auto simp: Let_def byteWidth_def np_itemsize_def)
qed

text \<open>
  Claim C8, as amended. On a buffer that \<open>initialize\<close> or \<open>initialize_from_raw\<close> has
  initialized, \<open>get_data\<close> with \<open>wprotect=True\<close> returns a view for every range, and the view
  is read-only: in any sequence of attempts on it that does not switch the write flag back
  on, every assignment to an element or to the whole view raises ValueError, the heap stays as
  it was, and a later read of the same range has the contents it had before.
\<close>

theorem write_protected_view:
  assumes "initialize self nCh nS ty h0 = (None, b, h1) \<or> initialize_from_raw self a h0 = (None, b)"
    and "SetFlags True \<notin> set ops"
  shows "case get_data b start stop True of
           Inl e \<Rightarrow> False
         | Inr v \<Rightarrow>
             \<not> writeable v \<and>
             view_run ops v h = (map protected_outcome ops, v, h) \<and>
             map_sum id (ndarray_tolist (snd (snd (view_run ops v h)))) (get_data b start stop True) =
             map_sum id (ndarray_tolist h) (get_data b start stop True)"
proof -
  from assms(1) have "Buffer_buf b \<noteq> None"
  proof
    assume "initialize self nCh nS ty h0 = (None, b, h1)"
    then obtain code isz where "b = attached self (length h0) ty isz (nat nCh) (nat nS)"
      by (rule initialize_result)
    then show ?thesis by (simp add: attached_def)
  next
    assume "initialize_from_raw self a h0 = (None, b)"
    then show ?thesis by (rule initialize_from_raw_buf)
  qed
  then obtain buf where "Buffer_buf b = Some buf"
    by blast
  from get_data_returns [OF this, of start stop True]
  have g: "get_data b start stop True = Inr (setflags (getslice buf start stop) False)"
    by simp
  have "\<not> writeable (setflags (getslice buf start stop) False)"
    by (simp add: setflags_def)
  from this view_run_protected [OF this assms(2), of h] show ?thesis
    by (simp add: g)
qed


theorem write_protected_view_witness:
  "fst buf1 = None \<and>
   get_data (fst (snd buf1)) 0 4 True =
     Inr \<lparr>base = 0, dtype = ''float32'', itemsize = 4, offset = 28, shape0 = 2,
          shape1 = 4, stride0 = 60, writeable = False\<rparr> \<and>
   view_run [SetItem 0 0 100, Assign (Arr2 4 [[1, 2, 3, 4], [5, 6, 7, 8]]), SetFlags False,
             SetItem 1 1 7]
     \<lparr>base = 0, dtype = ''float32'', itemsize = 4, offset = 28, shape0 = 2,
          shape1 = 4, stride0 = 60, writeable = False\<rparr> (snd (snd buf1)) =
     ([Some ValueError, Some ValueError, None, Some ValueError],
      \<lparr>base = 0, dtype = ''float32'', itemsize = 4, offset = 28, shape0 = 2,
          shape1 = 4, stride0 = 60, writeable = False\<rparr>, snd (snd buf1))"
proof -
  have g: "get_data (fst (snd buf1)) 0 4 True =
     Inr \<lparr>base = 0, dtype = ''float32'', itemsize = 4, offset = 28, shape0 = 2,
          shape1 = 4, stride0 = 60, writeable = False\<rparr>"
    by (simp add: buf1_eq get_data_attached getslice_def clip_index_def setflags_def)
  have f: "fst buf1 = None"
    by (simp add: buf1_eq)
  have n: "SetFlags True \<notin> set [SetItem 0 0 100, Assign (Arr2 4 [[1, 2, 3, 4], [5, 6, 7, 8]]),
      SetFlags False, SetItem 1 1 7]"
    by simp
  from write_protected_view [where start = 0 and stop = 4 and h = "snd (snd buf1)",
      OF disjI1 n, OF buf1_initialize] g f
  show ?thesis
    by simp
qed

text \<open>Claim C8 as stated fails: numpy lets the holder of the view switch its write flag back
  on, and \<open>dat.setflags(write=True); dat[0, 0] = 100\<close> on the view of \<open>[0, 4)\<close> stores 100 in the
  shared memory, where a later read finds it.\<close>

theorem write_protected_view_counterexample:
  "fst buf1 = None \<and>
   get_data (fst (snd buf1)) 0 4 True =
     Inr \<lparr>base = 0, dtype = ''float32'', itemsize = 4, offset = 28, shape0 = 2,
          shape1 = 4, stride0 = 60, writeable = False\<rparr> \<and>
   map_sum id (ndarray_tolist (snd (snd buf1))) (get_data (fst (snd buf1)) 0 4 True) =
     Inr [[0, 0, 0, 0], [0, 0, 0, 0]] \<and>
   fst (view_run [SetFlags True, SetItem 0 0 100]
     \<lparr>base = 0, dtype = ''float32'', itemsize = 4, offset = 28, shape0 = 2,
          shape1 = 4, stride0 = 60, writeable = False\<rparr> (snd (snd buf1))) = [None, None] \<and>
   map_sum id (ndarray_tolist (snd (snd (view_run [SetFlags True, SetItem 0 0 100]
     \<lparr>base = 0, dtype = ''float32'', itemsize = 4, offset = 28, shape0 = 2,
          shape1 = 4, stride0 = 60, writeable = False\<rparr> (snd (snd buf1))))))
     (get_data (fst (snd buf1)) 0 4 True) =
     Inr [[100, 0, 0, 0], [0, 0, 0, 0]]"
  by code_simp

text \<open>
  Claim C9. On a Buffer object fresh from \<open>__init__\<close> the properties \<open>raw\<close>, \<open>nChannels\<close>,
  \<open>nSamples\<close>, \<open>bufSize\<close> and \<open>nptype\<close> raise BufferError 1, and so do \<open>get_data\<close> and
  \<open>put_data\<close>, for all arguments; \<open>put_data\<close> leaves the heap unchanged.
\<close>

theorem uninitialized_raises:
  "raw Buffer_init = Inl (BufferError 1) \<and>
   nChannels Buffer_init = Inl (BufferError 1) \<and>
   nSamples Buffer_init = Inl (BufferError 1) \<and>
   bufSize Buffer_init = Inl (BufferError 1) \<and>
   nptype Buffer_init = Inl (BufferError 1) \<and>
   get_data Buffer_init start stop w = Inl (BufferError 1) \<and>
   put_data Buffer_init d start h = (Some (BufferError 1), h)"
proof -
  have a: "attr Buffer_init Buffer_raw = Inl (BufferError 1)"
    "attr Buffer_init Buffer_nChannels = Inl (BufferError 1)"
    "attr Buffer_init Buffer_nSamples = Inl (BufferError 1)"
    "attr Buffer_init Buffer_bufSize = Inl (BufferError 1)"
    "attr Buffer_init Buffer_nptype = Inl (BufferError 1)"
    "attr Buffer_init Buffer_buf = Inl (BufferError 1)"
    by (simp_all add: attr_def getattr_hook_def Buffer_init_def)
  have p: "raw Buffer_init = Inl (BufferError 1)" "nChannels Buffer_init = Inl (BufferError 1)"
    "nSamples Buffer_init = Inl (BufferError 1)" "bufSize Buffer_init = Inl (BufferError 1)"
    "nptype Buffer_init = Inl (BufferError 1)"
    by (simp_all add: raw_def nChannels_def nSamples_def bufSize_def nptype_def property_get_def a)
  have g: "get_data Buffer_init start stop w = Inl (BufferError 1)"
    by (simp add: get_data_def read_buffer_def check_availablility_def a)
  have w: "put_data Buffer_init d start h = (Some (BufferError 1), h)"
    by (simp add: put_data_def p)
  from p g w show ?thesis by simp
qed

text \<open>
  Claim C10. On a Buffer object that \<open>initialize\<close> or \<open>initialize_from_raw\<close> has initialized
  without raising, the property \<open>nSamples\<close> raises AttributeError: no method assigns
  \<open>__nSamples\<close>.
\<close>

theorem nSamples_AttributeError:
  assumes "reachable b0"
    and "initialize b0 nCh nS ty h = (None, b, h') \<or> initialize_from_raw b0 a h = (None, b)"
  shows "nSamples b = Inl AttributeError"
proof -
  from assms(2) have "reachable b"
    using assms(1) by (auto intro: reachable.intros)
  then have n: "Buffer_nSamples b = None"
    by (rule reachable_nSamples)
  from assms(2) have "Buffer_initialized b"
  proof
    assume "initialize b0 nCh nS ty h = (None, b, h')"
    then obtain code isz where "b = attached b0 (length h) ty isz (nat nCh) (nat nS)"
      by (rule initialize_result)
    then show ?thesis by (simp add: attached_def)
  next
    assume "initialize_from_raw b0 a h = (None, b)"
    with initialize_from_raw_initialized [of b0 a h] show ?thesis by simp
  qed
  with n show ?thesis
    by (rule nSamples_unassigned)
qed

theorem nSamples_AttributeError_witness:
  "reachable Buffer_init \<and> fst buf1 = None \<and> nSamples (fst (snd buf1)) = Inl AttributeError"
proof -
  have f: "fst buf1 = None"
    by (simp add: buf1_eq)
  from nSamples_AttributeError [OF reachable.fresh disjI1, OF buf1_initialize] f reachable.fresh
  show ?thesis
    by simp
qed

end
